theory Spec2Isabelle
  imports Complex_Main
begin

section \<open>Values of the Python program\<close>

text \<open>
  A Python float is a real number that binary64 represents. An arithmetic operation of
  \<open>SolarSystem\<close> on floats is the exact operation followed by \<open>fl64\<close>, the rounding to the
  nearest binary64 value with ties to the even mantissa; comparisons and \<open>min\<close> are exact.
  Overflow to infinity and NaN are outside the model: \<open>fl64\<close> has no largest value. The
  totals of \<open>EnergyMonitor\<close> are exact sums and an exact quotient, and the tariff rates are
  the decimal values of their literals, which the code only compares. The exceptions the
  modelled code can raise are values of \<open>error\<close>.
\<close>

datatype error = ValueError | KeyError

text \<open>\<open>datetime.time\<close>: the four fields Python compares, in this order.\<close>

record time =
  t_hour :: nat
  t_minute :: nat
  t_second :: nat
  t_microsecond :: nat

text \<open>A naive \<open>datetime.datetime\<close>.\<close>

record datetime =
  dt_year :: nat
  dt_month :: nat
  dt_day :: nat
  dt_hour :: nat
  dt_minute :: nat
  dt_second :: nat
  dt_microsecond :: nat

text \<open>\<open>datetime.time()\<close>: the time of day of a datetime.\<close>

definition dt_time :: "datetime \<Rightarrow> time" where
  "dt_time d = \<lparr>t_hour = dt_hour d, t_minute = dt_minute d, t_second = dt_second d,
                t_microsecond = dt_microsecond d\<rparr>"

text \<open>
  \<open>time._cmp\<close>: the comparison of the tuples (hour, minute, second, microsecond), with
  result -1, 0 or 1; the rich comparisons test its sign.
\<close>

definition cmp_nat :: "nat \<Rightarrow> nat \<Rightarrow> int \<Rightarrow> int" where
  "cmp_nat a b rest = (if a < b then - 1 else if b < a then 1 else rest)"

definition time_cmp :: "time \<Rightarrow> time \<Rightarrow> int" where
  "time_cmp a b =
     cmp_nat (t_hour a) (t_hour b)
       (cmp_nat (t_minute a) (t_minute b)
          (cmp_nat (t_second a) (t_second b)
             (cmp_nat (t_microsecond a) (t_microsecond b) 0)))"

definition time_lt :: "time \<Rightarrow> time \<Rightarrow> bool" where
  "time_lt a b = (time_cmp a b < 0)"

definition time_le :: "time \<Rightarrow> time \<Rightarrow> bool" where
  "time_le a b = (time_cmp a b \<le> 0)"

definition time_ge :: "time \<Rightarrow> time \<Rightarrow> bool" where
  "time_ge a b = (time_cmp a b \<ge> 0)"

text \<open>\<open>time(h, m)\<close> with seconds and microseconds left at their default 0.\<close>

definition mk_time :: "nat \<Rightarrow> nat \<Rightarrow> time" where
  "mk_time h m = \<lparr>t_hour = h, t_minute = m, t_second = 0, t_microsecond = 0\<rparr>"

text \<open>
  \<open>datetime.replace(hour=h)\<close>: the constructor rejects an hour outside 0..23 with
  ValueError; the other fields are those of a valid datetime already.
\<close>

definition replace_hour :: "datetime \<Rightarrow> nat \<Rightarrow> error + datetime" where
  "replace_hour d h = (if h \<le> 23 then Inr (d\<lparr>dt_hour := h\<rparr>) else Inl ValueError)"

section \<open>Binary64 rounding\<close>

text \<open>Rounding of a real to the nearest integer, a tie going to the even one.\<close>

definition round_even :: "real \<Rightarrow> int" where
  "round_even x =
     (let f = \<lfloor>x\<rfloor>; d = x - of_int f in
      if d < 1 / 2 then f
      else if 1 / 2 < d then f + 1
      else if even f then f else f + 1)"

text \<open>
  The exponent of the binade of \<open>x\<close>, not below -1022, the exponent of the subnormal
  numbers.
\<close>

definition float_exponent :: "real \<Rightarrow> int" where
  "float_exponent x = max \<lfloor>log 2 \<bar>x\<bar>\<rfloor> (- 1022)"

text \<open>
  \<open>fl64 x\<close>: the multiple of the unit in the last place, \<open>2\<close> to the power
  \<open>float_exponent x - 52\<close>, that is nearest to \<open>x\<close>.
\<close>

definition fl64 :: "real \<Rightarrow> real" where
  "fl64 x =
     (if x = 0 then 0
      else
        (let u = 2 powr of_int (float_exponent x - 52)
         in of_int (round_even (x / u)) * u))"

text \<open>The reals that binary64 represents are the fixed points of the rounding.\<close>

definition is_float :: "real \<Rightarrow> bool" where
  "is_float x = (fl64 x = x)"

section \<open>TariffSchedule\<close>

record period =
  p_start :: time
  p_end :: time
  p_rate :: real

text \<open>
  \<open>self.periods\<close> is a dict from the period's name to its details; a dict iterates in
  insertion order, so it is an association list with distinct keys.
\<close>

type_synonym TariffSchedule = "(string \<times> period) list"

definition TariffSchedule_init :: TariffSchedule where
  "TariffSchedule_init =
     [(''peak'', \<lparr>p_start = mk_time 14 0, p_end = mk_time 20 0, p_rate = 0.40\<rparr>),
      (''shoulder'', \<lparr>p_start = mk_time 7 0, p_end = mk_time 14 0, p_rate = 0.25\<rparr>),
      (''off_peak'', \<lparr>p_start = mk_time 20 0, p_end = mk_time 7 0, p_rate = 0.15\<rparr>)]"

text \<open>\<open>self.periods['off_peak']['rate']\<close>: a missing key raises KeyError.\<close>

definition off_peak_rate :: "TariffSchedule \<Rightarrow> error + real" where
  "off_peak_rate periods =
     (case map_of periods ''off_peak'' of None \<Rightarrow> Inl KeyError | Some details \<Rightarrow> Inr (p_rate details))"

text \<open>The loop of \<open>get_current_rate\<close> over the periods: the first period that matches returns.\<close>

fun first_matching_rate :: "(string \<times> period) list \<Rightarrow> time \<Rightarrow> real option" where
  "first_matching_rate [] current_time = None"
| "first_matching_rate ((name, details) # rest) current_time =
     (let start = p_start details; end = p_end details in
      if time_lt end start then
        (if time_ge current_time start \<or> time_lt current_time end then Some (p_rate details)
         else first_matching_rate rest current_time)
      else
        (if time_le start current_time \<and> time_lt current_time end then Some (p_rate details)
         else first_matching_rate rest current_time))"

text \<open>
  \<open>get_current_rate\<close> reads the wall clock, \<open>datetime.now()\<close>; the reading is the
  parameter \<open>now\<close>.
\<close>

definition get_current_rate :: "TariffSchedule \<Rightarrow> datetime \<Rightarrow> error + real" where
  "get_current_rate periods now =
     (case first_matching_rate periods (dt_time now) of
        Some r \<Rightarrow> Inr r
      | None \<Rightarrow> off_peak_rate periods)"

section \<open>SolarSystem\<close>

record SolarSystem =
  capacity_kw :: real
  current_generation :: real
  stored_energy :: real
  max_storage :: real

definition SolarSystem_init :: "real \<Rightarrow> SolarSystem" where
  "SolarSystem_init cap =
     \<lparr>capacity_kw = cap, current_generation = 0, stored_energy = 0, max_storage = fl64 (cap * 4)\<rparr>"

text \<open>
  \<open>update_generation\<close>: \<open>u\<close> is the value \<open>random.uniform(0.8, 1.0)\<close> returns when it is
  called, which is in the daylight branch only. Line 40 is evaluated from the left: the
  quotient \<open>abs(hour - 12) / 6\<close> of two ints, the difference from 1, the product with the
  capacity and the product with the random value, each rounded. The result is the returned
  value and the updated object.
\<close>

definition update_generation :: "SolarSystem \<Rightarrow> datetime \<Rightarrow> real \<Rightarrow> real \<times> SolarSystem" where
  "update_generation self time_of_day u =
     (let hour = dt_hour time_of_day;
          self' = (if 6 \<le> hour \<and> hour \<le> 18
                   then self\<lparr>current_generation :=
                          fl64 (fl64 (capacity_kw self
                                       * fl64 (1 - fl64 (\<bar>real_of_int (int hour - 12)\<bar> / 6)))
                                * u)\<rparr>
                   else self\<lparr>current_generation := 0\<rparr>)
      in (current_generation self', self'))"










section \<open>EnergyOptimizer\<close>

record appliance =
  power_usage :: real
  flexible_timing :: bool
  scheduled_runs :: "nat list"

record EnergyOptimizer =
  solar_system :: SolarSystem
  tariff_schedule :: TariffSchedule
  appliance_schedule :: "(string \<times> appliance) list"

definition EnergyOptimizer_init :: "SolarSystem \<Rightarrow> TariffSchedule \<Rightarrow> EnergyOptimizer" where
  "EnergyOptimizer_init sys tariff =
     \<lparr>solar_system = sys, tariff_schedule = tariff, appliance_schedule = []\<rparr>"

text \<open>
  \<open>d[k] = v\<close> on a dict: an existing key keeps its place and takes the new value, a new key
  goes to the end.
\<close>

fun dict_set :: "('k \<times> 'v) list \<Rightarrow> 'k \<Rightarrow> 'v \<Rightarrow> ('k \<times> 'v) list" where
  "dict_set [] k v = [(k, v)]"
| "dict_set ((k', v') # rest) k v =
     (if k' = k then (k, v) # rest else (k', v') # dict_set rest k v)"

definition add_appliance :: "EnergyOptimizer \<Rightarrow> string \<Rightarrow> real \<Rightarrow> bool \<Rightarrow> EnergyOptimizer" where
  "add_appliance self name usage flexible =
     self\<lparr>appliance_schedule :=
            dict_set (appliance_schedule self) name
              \<lparr>power_usage = usage, flexible_timing = flexible, scheduled_runs = []\<rparr>\<rparr>"

text \<open>The schedule under construction: a dict from the hour to the list of appliance names.\<close>

type_synonym schedule = "nat \<rightharpoonup> string list"

text \<open>
  \<open>if hour not in schedule: schedule[hour] = []\<close> followed by
  \<open>schedule[hour].append(appliance)\<close>.
\<close>

definition schedule_append :: "schedule \<Rightarrow> nat \<Rightarrow> string \<Rightarrow> schedule" where
  "schedule_append sched hour name =
     (let sched' = (if sched hour = None then sched(hour \<mapsto> []) else sched)
      in sched'(hour \<mapsto> the (sched' hour) @ [name]))"

text \<open>
  The inner loop over \<open>self.appliance_schedule.items()\<close>. The right operand of \<open>or\<close>, with
  its dict lookup, is evaluated only when the left one is false.
\<close>

fun schedule_appliances ::
  "nat \<Rightarrow> real \<Rightarrow> real \<Rightarrow> TariffSchedule \<Rightarrow> (string \<times> appliance) list \<Rightarrow> schedule
     \<Rightarrow> error + schedule" where
  "schedule_appliances hour solar_generation rate periods [] sched = Inr sched"
| "schedule_appliances hour solar_generation rate periods ((name, details) # rest) sched =
     (if flexible_timing details then
        (if solar_generation > power_usage details then
           schedule_appliances hour solar_generation rate periods rest
             (schedule_append sched hour name)
         else
           (case off_peak_rate periods of
              Inl e \<Rightarrow> Inl e
            | Inr off \<Rightarrow>
                if rate = off then
                  schedule_appliances hour solar_generation rate periods rest
                    (schedule_append sched hour name)
                else schedule_appliances hour solar_generation rate periods rest sched))
      else schedule_appliances hour solar_generation rate periods rest sched)"

text \<open>
  What \<open>optimize_schedule\<close> takes from outside the program: the reading of
  \<open>datetime.now()\<close> at its start, the reading that \<open>get_current_rate\<close> makes in the
  iteration for each hour, and the value that \<open>random.uniform\<close> returns in that iteration.
\<close>

record environment =
  now_start :: datetime
  now_at :: "nat \<Rightarrow> datetime"
  uniform_at :: "nat \<Rightarrow> real"

text \<open>
  The loop \<open>for hour in range(forecast_window_hours)\<close>, over the list of the hours. The
  state is the solar system, whose \<open>current_generation\<close> each iteration overwrites, and the
  schedule.
\<close>

fun schedule_hours ::
  "environment \<Rightarrow> TariffSchedule \<Rightarrow> (string \<times> appliance) list \<Rightarrow> nat list
     \<Rightarrow> SolarSystem \<times> schedule \<Rightarrow> error + (SolarSystem \<times> schedule)" where
  "schedule_hours env periods apps [] st = Inr st"
| "schedule_hours env periods apps (hour # hours) (sys, sched) =
     (case replace_hour (now_start env) hour of
        Inl e \<Rightarrow> Inl e
      | Inr time_slot \<Rightarrow>
          (case get_current_rate periods (now_at env hour) of
             Inl e \<Rightarrow> Inl e
           | Inr rate \<Rightarrow>
               (case update_generation sys time_slot (uniform_at env hour) of
                  (solar_generation, sys') \<Rightarrow>
                    (case schedule_appliances hour solar_generation rate periods apps sched of
                       Inl e \<Rightarrow> Inl e
                     | Inr sched' \<Rightarrow> schedule_hours env periods apps hours (sys', sched')))))"

text \<open>
  \<open>optimize_schedule\<close>: \<open>range(n)\<close> is empty for \<open>n \<le> 0\<close>. The result is the schedule and
  the optimizer with its solar system as the loop left it.
\<close>

definition optimize_schedule ::
  "environment \<Rightarrow> EnergyOptimizer \<Rightarrow> int \<Rightarrow> error + (schedule \<times> EnergyOptimizer)" where
  "optimize_schedule env self forecast_window_hours =
     (case schedule_hours env (tariff_schedule self) (appliance_schedule self)
             [0 ..< nat forecast_window_hours] (solar_system self, Map.empty) of
        Inl e \<Rightarrow> Inl e
      | Inr (sys, sched) \<Rightarrow> Inr (sched, self\<lparr>solar_system := sys\<rparr>))"

text \<open>The list a schedule holds for an hour: empty when the hour is not a key.\<close>

definition scheduled_at :: "schedule \<Rightarrow> nat \<Rightarrow> string list" where
  "scheduled_at sched hour = (case sched hour of None \<Rightarrow> [] | Some names \<Rightarrow> names)"

section \<open>EnergyMonitor\<close>







text \<open>
  The test of lines 79 and 80 under which the inner loop appends an appliance, with the
  off-peak rate already looked up.
\<close>

definition eligible :: "real \<Rightarrow> real \<Rightarrow> real \<Rightarrow> string \<times> appliance \<Rightarrow> bool" where
  "eligible solar_generation rate off entry =
     (flexible_timing (snd entry) \<and> (solar_generation > power_usage (snd entry) \<or> rate = off))"

section \<open>Concrete inputs\<close>

text \<open>A clock reading on 1 June 2024 at the given hour and minute.\<close>

definition clock_at :: "nat \<Rightarrow> nat \<Rightarrow> datetime" where
  "clock_at h m = \<lparr>dt_year = 2024, dt_month = 6, dt_day = 1, dt_hour = h, dt_minute = m,
                   dt_second = 0, dt_microsecond = 0\<rparr>"

text \<open>An environment whose clock stands still at \<open>now\<close> and whose random draws are all \<open>u\<close>.\<close>

definition fixed_env :: "datetime \<Rightarrow> real \<Rightarrow> environment" where
  "fixed_env now u = \<lparr>now_start = now, now_at = (\<lambda>hour. now), uniform_at = (\<lambda>hour. u)\<rparr>"

text \<open>A 5 kW system with one flexible appliance that draws more than the system ever generates.\<close>

definition ev_optimizer :: EnergyOptimizer where
  "ev_optimizer =
     add_appliance (EnergyOptimizer_init (SolarSystem_init 5) TariffSchedule_init)
       ''EV Charger'' 7 True"

text \<open>A 10 kW system with a flexible pump and a refrigerator that is not flexible.\<close>

definition home_optimizer :: EnergyOptimizer where
  "home_optimizer =
     add_appliance
       (add_appliance (EnergyOptimizer_init (SolarSystem_init 10) TariffSchedule_init)
          ''Pool Pump'' 1 True)
       ''Refrigerator'' 0.15 False"






section \<open>Properties of the rounding\<close>

lemma round_even_of_int: "round_even (of_int n) = n"
  by (simp add: round_even_def)

lemma round_even_lower: "\<lfloor>x\<rfloor> \<le> round_even x"
  by (simp add: round_even_def Let_def)

lemma round_even_upper: "round_even x \<le> \<lfloor>x\<rfloor> + 1"
  by (simp add: round_even_def Let_def)

lemma round_even_mono:
  assumes "x \<le> y"
  shows "round_even x \<le> round_even y"
proof (cases "\<lfloor>x\<rfloor> = \<lfloor>y\<rfloor>")
  case True
  then have "x - of_int \<lfloor>x\<rfloor> \<le> y - of_int \<lfloor>y\<rfloor>" using assms by simp
  then show ?thesis using True by (auto simp: round_even_def Let_def)
next
  case False
  then have "\<lfloor>x\<rfloor> < \<lfloor>y\<rfloor>" using floor_mono [OF assms] by simp
  then have "\<lfloor>x\<rfloor> + 1 \<le> \<lfloor>y\<rfloor>" by simp
  then show ?thesis using round_even_upper [of x] round_even_lower [of y] by linarith
qed

lemma round_even_le_int: "x \<le> of_int n \<Longrightarrow> round_even x \<le> n"
  using round_even_mono [of x "of_int n"] by (simp add: round_even_of_int)

lemma round_even_ge_int: "of_int n \<le> x \<Longrightarrow> n \<le> round_even x"
  using round_even_mono [of "of_int n" x] by (simp add: round_even_of_int)

lemma float_exponent_upper:
  assumes "x \<noteq> 0"
  shows "\<bar>x\<bar> < 2 powr of_int (float_exponent x + 1)"
proof -
  have pos: "0 < \<bar>x\<bar>" using assms by simp
  have "log 2 \<bar>x\<bar> < of_int (\<lfloor>log 2 \<bar>x\<bar>\<rfloor> + 1)" by linarith
  also have "\<dots> \<le> of_int (float_exponent x + 1)" by (simp add: float_exponent_def)
  finally have "2 powr log 2 \<bar>x\<bar> < 2 powr of_int (float_exponent x + 1)"
    by (intro powr_less_mono) simp_all
  then show ?thesis using pos by simp
qed

lemma float_exponent_lower:
  assumes "x \<noteq> 0" and "- 1022 < float_exponent x"
  shows "2 powr of_int (float_exponent x) \<le> \<bar>x\<bar>"
proof -
  have pos: "0 < \<bar>x\<bar>" using assms by simp
  from assms(2) have "float_exponent x = \<lfloor>log 2 \<bar>x\<bar>\<rfloor>" by (simp add: float_exponent_def max_def split: if_splits)
  then have "of_int (float_exponent x) \<le> log 2 \<bar>x\<bar>" by simp
  then have "2 powr of_int (float_exponent x) \<le> 2 powr log 2 \<bar>x\<bar>"
    by (intro powr_mono) simp_all
  then show ?thesis using pos by simp
qed

lemma float_exponent_mono:
  assumes "x \<noteq> 0" and "\<bar>x\<bar> \<le> \<bar>y\<bar>"
  shows "float_exponent x \<le> float_exponent y"
proof -
  have "log 2 \<bar>x\<bar> \<le> log 2 \<bar>y\<bar>" using assms by simp
  then have "\<lfloor>log 2 \<bar>x\<bar>\<rfloor> \<le> \<lfloor>log 2 \<bar>y\<bar>\<rfloor>" by (rule floor_mono)
  then show ?thesis unfolding float_exponent_def by linarith
qed

lemma float_exponent_eq:
  assumes "2 powr of_int e \<le> \<bar>x\<bar>" and "\<bar>x\<bar> < 2 powr of_int (e + 1)" and "- 1022 \<le> e"
  shows "float_exponent x = e"
proof -
  have "0 < (2::real) powr of_int e" by simp
  then have pos: "0 < \<bar>x\<bar>" using assms(1) by linarith
  have "\<lfloor>log 2 \<bar>x\<bar>\<rfloor> = e"
    using assms(1,2) pos by (subst floor_log_eq_powr_iff) (simp_all add: add.commute)
  then show ?thesis using assms(3) by (simp add: float_exponent_def)
qed

lemma ulp_times_52: "2 powr of_int (e - 52) * 2 ^ 52 = (2::real) powr of_int e"
proof -
  have "(2::real) ^ 52 = 2 powr 52" by simp
  then have "2 powr of_int (e - 52) * 2 ^ 52 = (2::real) powr (of_int (e - 52) + 52)"
    by (simp only: powr_add)
  then show ?thesis by simp
qed

lemma ulp_times_53: "2 powr of_int (e - 52) * 2 ^ 53 = (2::real) powr of_int (e + 1)"
proof -
  have "(2::real) ^ 53 = 2 powr 53" by simp
  then have "2 powr of_int (e - 52) * 2 ^ 53 = (2::real) powr (of_int (e - 52) + 53)"
    by (simp only: powr_add)
  then show ?thesis by (simp add: add.commute)
qed

lemma fl64_zero: "fl64 0 = 0"
  by (simp add: fl64_def)

lemma fl64_nonneg:
  assumes "0 \<le> x"
  shows "0 \<le> fl64 x"
proof (cases "x = 0")
  case True
  then show ?thesis by (simp add: fl64_zero)
next
  case False
  let ?u = "(2::real) powr of_int (float_exponent x - 52)"
  have "(of_int 0 :: real) \<le> x / ?u" using assms by simp
  then have "0 \<le> round_even (x / ?u)" by (rule round_even_ge_int)
  then show ?thesis using False by (simp add: fl64_def Let_def)
qed

lemma fl64_nonpos:
  assumes "x \<le> 0"
  shows "fl64 x \<le> 0"
proof (cases "x = 0")
  case True
  then show ?thesis by (simp add: fl64_zero)
next
  case False
  let ?u = "(2::real) powr of_int (float_exponent x - 52)"
  have "x / ?u \<le> (of_int 0 :: real)" using assms by (simp add: divide_nonpos_pos)
  then have "round_even (x / ?u) \<le> 0" by (rule round_even_le_int)
  then show ?thesis using False by (simp add: fl64_def Let_def mult_nonpos_nonneg)
qed

lemma fl64_unfold:
  "x \<noteq> 0 \<Longrightarrow>
     fl64 x = 2 powr of_int (float_exponent x - 52)
                * of_int (round_even (x / 2 powr of_int (float_exponent x - 52)))"
  by (simp add: fl64_def Let_def)

lemma fl64_upper:
  assumes "x \<noteq> 0"
  shows "fl64 x \<le> 2 powr of_int (float_exponent x + 1)"
proof -
  let ?u = "(2::real) powr of_int (float_exponent x - 52)"
  have u: "0 < ?u" by simp
  have "x \<le> \<bar>x\<bar>" by simp
  also have "\<dots> < 2 powr of_int (float_exponent x + 1)" by (rule float_exponent_upper [OF assms])
  also have "\<dots> = ?u * 2 ^ 53" by (simp only: ulp_times_53)
  finally have "x / ?u \<le> 2 ^ 53" using u by (simp only: pos_divide_le_eq mult.commute)
  then have "x / ?u \<le> of_int (2 ^ 53)" by simp
  then have "round_even (x / ?u) \<le> 2 ^ 53" by (rule round_even_le_int)
  then have "of_int (round_even (x / ?u)) \<le> (2::real) ^ 53" by simp
  then have "?u * of_int (round_even (x / ?u)) \<le> ?u * 2 ^ 53"
    using u by (intro mult_left_mono) simp_all
  also have "\<dots> = 2 powr of_int (float_exponent x + 1)" by (rule ulp_times_53)
  finally show ?thesis by (simp only: fl64_unfold [OF assms])
qed

lemma fl64_lower:
  assumes "x \<noteq> 0"
  shows "- (2 powr of_int (float_exponent x + 1)) \<le> fl64 x"
proof -
  let ?u = "(2::real) powr of_int (float_exponent x - 52)"
  have u: "0 < ?u" by simp
  have "- x \<le> \<bar>x\<bar>" by simp
  also have "\<dots> < 2 powr of_int (float_exponent x + 1)" by (rule float_exponent_upper [OF assms])
  also have "\<dots> = ?u * 2 ^ 53" by (simp only: ulp_times_53)
  finally have "(- (2 ^ 53)) * ?u \<le> x" by simp
  then have "- (2 ^ 53) \<le> x / ?u" using u by (simp only: pos_le_divide_eq)
  then have "of_int (- (2 ^ 53)) \<le> x / ?u" by simp
  then have "- (2 ^ 53) \<le> round_even (x / ?u)" by (rule round_even_ge_int)
  then have "- ((2::real) ^ 53) \<le> of_int (round_even (x / ?u))" by simp
  then have "?u * (- (2 ^ 53)) \<le> ?u * of_int (round_even (x / ?u))"
    using u by (intro mult_left_mono) simp_all
  moreover have "?u * (- (2 ^ 53)) = - (?u * 2 ^ 53)" by simp
  moreover have "?u * 2 ^ 53 = 2 powr of_int (float_exponent x + 1)" by (rule ulp_times_53)
  ultimately show ?thesis by (simp only: fl64_unfold [OF assms])
qed

lemma fl64_normal_pos:
  assumes "0 < x" and "2 powr of_int (float_exponent x) \<le> x"
  shows "2 powr of_int (float_exponent x) \<le> fl64 x"
proof -
  let ?u = "(2::real) powr of_int (float_exponent x - 52)"
  have u: "0 < ?u" by simp
  have x0: "x \<noteq> 0" using assms(1) by simp
  have "?u * 2 ^ 52 \<le> x" using assms(2) by (simp only: ulp_times_52)
  then have "2 ^ 52 \<le> x / ?u" using u by (simp only: pos_le_divide_eq mult.commute)
  then have "of_int (2 ^ 52) \<le> x / ?u" by simp
  then have "2 ^ 52 \<le> round_even (x / ?u)" by (rule round_even_ge_int)
  then have "(2::real) ^ 52 \<le> of_int (round_even (x / ?u))" by simp
  then have "?u * 2 ^ 52 \<le> ?u * of_int (round_even (x / ?u))"
    using u by (intro mult_left_mono) simp_all
  moreover have "?u * 2 ^ 52 = 2 powr of_int (float_exponent x)" by (rule ulp_times_52)
  ultimately show ?thesis by (simp only: fl64_unfold [OF x0])
qed

lemma fl64_normal_neg:
  assumes "x < 0" and "2 powr of_int (float_exponent x) \<le> - x"
  shows "fl64 x \<le> - (2 powr of_int (float_exponent x))"
proof -
  let ?u = "(2::real) powr of_int (float_exponent x - 52)"
  have u: "0 < ?u" by simp
  have x0: "x \<noteq> 0" using assms(1) by simp
  have "?u * 2 ^ 52 \<le> - x" using assms(2) by (simp only: ulp_times_52)
  then have "x \<le> (- (2 ^ 52)) * ?u" by simp
  then have "x / ?u \<le> - (2 ^ 52)" using u by (simp only: pos_divide_le_eq)
  then have "x / ?u \<le> of_int (- (2 ^ 52))" by simp
  then have "round_even (x / ?u) \<le> - (2 ^ 52)" by (rule round_even_le_int)
  then have "of_int (round_even (x / ?u)) \<le> - ((2::real) ^ 52)" by simp
  then have "?u * of_int (round_even (x / ?u)) \<le> ?u * (- (2 ^ 52))"
    using u by (intro mult_left_mono) simp_all
  moreover have "?u * (- (2 ^ 52)) = - (?u * 2 ^ 52)" by simp
  moreover have "?u * 2 ^ 52 = 2 powr of_int (float_exponent x)" by (rule ulp_times_52)
  ultimately show ?thesis by (simp only: fl64_unfold [OF x0])
qed

lemma fl64_mono_same_exponent:
  assumes "x \<noteq> 0" and "y \<noteq> 0" and "x \<le> y" and "float_exponent x = float_exponent y"
  shows "fl64 x \<le> fl64 y"
proof -
  let ?u = "(2::real) powr of_int (float_exponent y - 52)"
  have u: "0 < ?u" by simp
  have "x / ?u \<le> y / ?u" using assms(3) u by (simp add: divide_right_mono)
  then have "round_even (x / ?u) \<le> round_even (y / ?u)" by (rule round_even_mono)
  then have "?u * of_int (round_even (x / ?u)) \<le> ?u * of_int (round_even (y / ?u))"
    using u by (intro mult_left_mono) simp_all
  then show ?thesis by (simp only: fl64_unfold [OF assms(1)] fl64_unfold [OF assms(2)] assms(4))
qed

lemma fl64_mono:
  assumes "x \<le> y"
  shows "fl64 x \<le> fl64 y"
proof -
  consider "x \<le> 0" "0 \<le> y" | "0 < x" | "y < 0" using assms by linarith
  then show ?thesis
  proof cases
    case 1
    then show ?thesis using fl64_nonpos [of x] fl64_nonneg [of y] by linarith
  next
    case 2
    then have x0: "x \<noteq> 0" and y0: "y \<noteq> 0" and ypos: "0 < y" using assms by simp_all
    have le: "float_exponent x \<le> float_exponent y"
      using float_exponent_mono [OF x0, of y] 2 assms by simp
    show ?thesis
    proof (cases "float_exponent x = float_exponent y")
      case True
      then show ?thesis using fl64_mono_same_exponent [OF x0 y0 assms] by simp
    next
      case False
      then have lt: "float_exponent x + 1 \<le> float_exponent y" using le by simp
      have "- 1022 \<le> float_exponent x" by (simp add: float_exponent_def)
      then have "- 1022 < float_exponent y" using lt by simp
      then have "2 powr of_int (float_exponent y) \<le> y"
        using float_exponent_lower [OF y0] ypos by simp
      then have "2 powr of_int (float_exponent y) \<le> fl64 y"
        using fl64_normal_pos [OF ypos] by simp
      moreover have "2 powr of_int (float_exponent x + 1) \<le> (2::real) powr of_int (float_exponent y)"
        using lt by (intro powr_mono) simp_all
      ultimately show ?thesis using fl64_upper [OF x0] by linarith
    qed
  next
    case 3
    then have x0: "x \<noteq> 0" and y0: "y \<noteq> 0" and xneg: "x < 0" using assms by simp_all
    have le: "float_exponent y \<le> float_exponent x"
      using float_exponent_mono [OF y0, of x] 3 assms by simp
    show ?thesis
    proof (cases "float_exponent x = float_exponent y")
      case True
      then show ?thesis using fl64_mono_same_exponent [OF x0 y0 assms] by simp
    next
      case False
      then have lt: "float_exponent y + 1 \<le> float_exponent x" using le by simp
      have "- 1022 \<le> float_exponent y" by (simp add: float_exponent_def)
      then have "- 1022 < float_exponent x" using lt by simp
      then have "2 powr of_int (float_exponent x) \<le> - x"
        using float_exponent_lower [OF x0] xneg by simp
      then have "fl64 x \<le> - (2 powr of_int (float_exponent x))"
        using fl64_normal_neg [OF xneg] by simp
      moreover have "2 powr of_int (float_exponent y + 1) \<le> (2::real) powr of_int (float_exponent x)"
        using lt by (intro powr_mono) simp_all
      ultimately show ?thesis using fl64_lower [OF y0] by linarith
    qed
  qed
qed

lemma fl64_eval:
  assumes "2 powr of_int e \<le> \<bar>x\<bar>" and "\<bar>x\<bar> < 2 powr of_int (e + 1)" and "- 1022 \<le> e"
  shows "fl64 x = 2 powr of_int (e - 52) * of_int (round_even (x / 2 powr of_int (e - 52)))"
proof -
  have "0 < (2::real) powr of_int e" by simp
  then have "0 < \<bar>x\<bar>" using assms(1) by linarith
  then have "x \<noteq> 0" by simp
  then show ?thesis using fl64_unfold [of x] float_exponent_eq [OF assms] by simp
qed












lemma fl64_one: "fl64 1 = 1"
  by (subst fl64_eval [where e = 0]) (simp_all add: round_even_def powr_minus)


section \<open>Tariff lookup\<close>

text \<open>
  C5: with the default periods the lookup gives the shoulder rate 0.25 at 13:59, the peak
  rate 0.40 at 14:00, and the off-peak rate 0.15 at 23:00 and at 06:59 (the period that
  wraps midnight), whatever the date, the seconds and the microseconds of the instant.
\<close>

theorem default_tariff_rates:
  "get_current_rate TariffSchedule_init (d\<lparr>dt_hour := 13, dt_minute := 59\<rparr>) = Inr 0.25
   \<and> get_current_rate TariffSchedule_init (d\<lparr>dt_hour := 14, dt_minute := 0\<rparr>) = Inr 0.40
   \<and> get_current_rate TariffSchedule_init (d\<lparr>dt_hour := 23, dt_minute := 0\<rparr>) = Inr 0.15
   \<and> get_current_rate TariffSchedule_init (d\<lparr>dt_hour := 6, dt_minute := 59\<rparr>) = Inr 0.15"
  by (simp add: get_current_rate_def TariffSchedule_init_def dt_time_def mk_time_def
      time_lt_def time_le_def time_ge_def time_cmp_def cmp_nat_def)

theorem default_tariff_rates_witness:
  "get_current_rate TariffSchedule_init (clock_at 13 59) = Inr 0.25
   \<and> get_current_rate TariffSchedule_init (clock_at 14 0) = Inr 0.40
   \<and> get_current_rate TariffSchedule_init (clock_at 23 0) = Inr 0.15
   \<and> get_current_rate TariffSchedule_init (clock_at 6 59) = Inr 0.15"
  using default_tariff_rates [of "clock_at 0 0"] by (simp add: clock_at_def)

section \<open>Solar generation\<close>

lemma generation_value:
  "fst (update_generation s t u) =
     (if 6 \<le> dt_hour t \<and> dt_hour t \<le> 18
      then fl64 (fl64 (capacity_kw s * fl64 (1 - fl64 (\<bar>real_of_int (int (dt_hour t) - 12)\<bar> / 6))) * u)
      else 0)"
  by (simp add: update_generation_def Let_def)

lemma daylight_factor_bounds:
  assumes "6 \<le> h" and "h \<le> 18"
  shows "0 \<le> fl64 (1 - fl64 (\<bar>real_of_int (int h - 12)\<bar> / 6))"
    and "fl64 (1 - fl64 (\<bar>real_of_int (int h - 12)\<bar> / 6)) \<le> 1"
proof -
  let ?q = "fl64 (\<bar>real_of_int (int h - 12)\<bar> / 6)"
  have "\<bar>real_of_int (int h - 12)\<bar> \<le> 6" using assms by (simp add: abs_le_iff)
  then have "\<bar>real_of_int (int h - 12)\<bar> / 6 \<le> 1" by simp
  then have q1: "?q \<le> 1" using fl64_mono [of "\<bar>real_of_int (int h - 12)\<bar> / 6" 1] by (simp add: fl64_one)
  have q0: "0 \<le> ?q" by (rule fl64_nonneg) simp
  show "0 \<le> fl64 (1 - ?q)" using q1 by (intro fl64_nonneg) simp
  show "fl64 (1 - ?q) \<le> 1" using q0 fl64_mono [of "1 - ?q" 1] by (simp add: fl64_one)
qed

text \<open>
  C4, as the claim states it, fails: line 40 rounds after each operation. For a 6 kW system
  at 07:00 with the random multiplier 1.0 the exact value of
  \<open>capacity_kw * (1 - |hour - 12| / 6) * U\<close> is 1, and the code returns
  0.9999999999999998, two units in the last place below it.
\<close>

theorem generation_rounding_counterexample:
  "fst (update_generation (SolarSystem_init 6) (clock_at 7 0) 1) = 9007199254740990 / 2 ^ 53
   \<and> capacity_kw (SolarSystem_init 6) * (1 - \<bar>real_of_int (int (dt_hour (clock_at 7 0)) - 12)\<bar> / 6) * 1
       = 1
   \<and> fst (update_generation (SolarSystem_init 6) (clock_at 7 0) 1)
       \<noteq> capacity_kw (SolarSystem_init 6)
           * (1 - \<bar>real_of_int (int (dt_hour (clock_at 7 0)) - 12)\<bar> / 6) * 1"
proof -
  have q: "fl64 (5 / 6) = 7505999378950827 / 2 ^ 53"
    by (subst fl64_eval [where e = "- 1"]) (simp_all add: round_even_def powr_minus)
  have f: "fl64 (1 - 7505999378950827 / 2 ^ 53) = 1501199875790165 / 2 ^ 53"
    by (subst fl64_eval [where e = "- 3"]) (simp_all add: round_even_def powr_minus)
  have p: "fl64 (6 * (1501199875790165 / 2 ^ 53)) = 9007199254740990 / 2 ^ 53"
    by (subst fl64_eval [where e = "- 1"]) (simp_all add: round_even_def powr_minus)
  have r: "fl64 (9007199254740990 / 2 ^ 53 * 1) = 9007199254740990 / 2 ^ 53"
    by (subst fl64_eval [where e = "- 1"]) (simp_all add: round_even_def powr_minus)
  have hour: "\<bar>real_of_int (int (dt_hour (clock_at 7 0)) - 12)\<bar> / 6 = 5 / 6"
    by (simp add: clock_at_def)
  have "fst (update_generation (SolarSystem_init 6) (clock_at 7 0) 1)
          = fl64 (fl64 (6 * fl64 (1 - fl64 (5 / 6))) * 1)"
    unfolding generation_value hour by (simp add: clock_at_def SolarSystem_init_def)
  also have "\<dots> = 9007199254740990 / 2 ^ 53" by (simp only: q f p r)
  finally have gen: "fst (update_generation (SolarSystem_init 6) (clock_at 7 0) 1)
                       = 9007199254740990 / 2 ^ 53" .
  have exact: "capacity_kw (SolarSystem_init 6)
                 * (1 - \<bar>real_of_int (int (dt_hour (clock_at 7 0)) - 12)\<bar> / 6) * 1 = 1"
    unfolding hour by (simp add: SolarSystem_init_def)
  show ?thesis unfolding gen exact by simp
qed

text \<open>
  C4, amended: for a float capacity above 0 and a random multiplier \<open>u\<close> between 0.8 and
  1.0, \<open>update_generation\<close> returns exactly 0 when the hour of the queried instant is
  outside 6..18; when it is inside, it returns \<open>capacity_kw * (1 - |hour - 12| / 6) * u\<close> as
  binary64 evaluates it, with the quotient, the difference and the two products each
  rounded to nearest. In both cases the returned value lies between 0 and \<open>capacity_kw\<close>.
\<close>

theorem generation_rounded_formula_and_bounds:
  assumes "0 < capacity_kw s" and "is_float (capacity_kw s)" and "0.8 \<le> u" and "u \<le> 1"
  shows "fst (update_generation s t u) =
           (if 6 \<le> dt_hour t \<and> dt_hour t \<le> 18
            then fl64 (fl64 (capacity_kw s
                              * fl64 (1 - fl64 (\<bar>real_of_int (int (dt_hour t) - 12)\<bar> / 6)))
                       * u)
            else 0)
         \<and> 0 \<le> fst (update_generation s t u) \<and> fst (update_generation s t u) \<le> capacity_kw s"
proof (cases "6 \<le> dt_hour t \<and> dt_hour t \<le> 18")
  case True
  let ?f = "fl64 (1 - fl64 (\<bar>real_of_int (int (dt_hour t) - 12)\<bar> / 6))"
  let ?p = "fl64 (capacity_kw s * ?f)"
  have f0: "0 \<le> ?f" and f1: "?f \<le> 1" using daylight_factor_bounds True by simp_all
  have cap: "fl64 (capacity_kw s) = capacity_kw s" using assms(2) by (simp add: is_float_def)
  have u0: "0 \<le> u" using assms(3) by simp
  have "0 \<le> capacity_kw s * ?f" using assms(1) f0 by simp
  then have p0: "0 \<le> ?p" by (rule fl64_nonneg)
  have "capacity_kw s * ?f \<le> capacity_kw s * 1" using assms(1) f1 by (intro mult_left_mono) simp_all
  then have "?p \<le> fl64 (capacity_kw s)" using fl64_mono [of "capacity_kw s * ?f" "capacity_kw s"] by simp
  then have p1: "?p \<le> capacity_kw s" by (simp only: cap)
  have "0 \<le> ?p * u" using p0 u0 by simp
  then have r0: "0 \<le> fl64 (?p * u)" by (rule fl64_nonneg)
  have "?p * u \<le> capacity_kw s * 1" using p0 p1 u0 assms(4) by (intro mult_mono) simp_all
  then have "fl64 (?p * u) \<le> fl64 (capacity_kw s)" using fl64_mono [of "?p * u" "capacity_kw s"] by simp
  then have r1: "fl64 (?p * u) \<le> capacity_kw s" by (simp only: cap)
  show ?thesis using True r0 r1 by (simp add: generation_value)
next
  case False
  then show ?thesis using assms(1) by (auto simp: generation_value)
qed

theorem generation_rounded_formula_and_bounds_witness:
  "0 < capacity_kw (SolarSystem_init 10) \<and> is_float (capacity_kw (SolarSystem_init 10))
   \<and> (0.8::real) \<le> 7 / 8 \<and> (7 / 8 :: real) \<le> 1
   \<and> fst (update_generation (SolarSystem_init 10) (clock_at 9 0) (7 / 8)) = 35 / 8
   \<and> fst (update_generation (SolarSystem_init 10) (clock_at 9 0) (7 / 8))
        \<le> capacity_kw (SolarSystem_init 10)
   \<and> fst (update_generation (SolarSystem_init 10) (clock_at 22 0) (7 / 8)) = 0"
proof -
  have ten: "fl64 10 = 10"
    by (subst fl64_eval [where e = 3]) (simp_all add: round_even_def powr_minus)
  have half: "fl64 (1 / 2) = 1 / 2"
    by (subst fl64_eval [where e = "- 1"]) (simp_all add: round_even_def powr_minus)
  have five: "fl64 5 = 5"
    by (subst fl64_eval [where e = 2]) (simp_all add: round_even_def powr_minus)
  have last: "fl64 (35 / 8) = 35 / 8"
    by (subst fl64_eval [where e = 2]) (simp_all add: round_even_def powr_minus)
  have h1: "0 < capacity_kw (SolarSystem_init 10)" by (simp add: SolarSystem_init_def)
  have h2: "is_float (capacity_kw (SolarSystem_init 10))"
    by (simp add: SolarSystem_init_def is_float_def ten)
  have h3: "(0.8::real) \<le> 7 / 8" and h4: "(7 / 8 :: real) \<le> 1" by simp_all
  from generation_rounded_formula_and_bounds [OF h1 h2 h3 h4, of "clock_at 9 0"]
    generation_rounded_formula_and_bounds [OF h1 h2 h3 h4, of "clock_at 22 0"]
  show ?thesis using h1 h2
    by (simp add: clock_at_def SolarSystem_init_def half five last)
qed

text \<open>
  C10: at the hours 6 and 18, which are inside the daylight range, the triangular factor
  \<open>1 - |hour - 12| / 6\<close> is 0, so \<open>update_generation\<close> returns exactly 0 for every capacity
  and every random multiplier.
\<close>

theorem generation_zero_at_boundary_hours:
  "fst (update_generation s (t\<lparr>dt_hour := 6\<rparr>) u) = 0
   \<and> fst (update_generation s (t\<lparr>dt_hour := 18\<rparr>) u) = 0
   \<and> current_generation (snd (update_generation s (t\<lparr>dt_hour := 6\<rparr>) u)) = 0
   \<and> current_generation (snd (update_generation s (t\<lparr>dt_hour := 18\<rparr>) u)) = 0"
  by (simp add: update_generation_def Let_def fl64_one fl64_zero)

theorem generation_zero_at_boundary_hours_witness:
  "fst (update_generation (SolarSystem_init 10) (clock_at 6 0) 1) = 0
   \<and> fst (update_generation (SolarSystem_init 10) (clock_at 18 0) 1) = 0"
  using generation_zero_at_boundary_hours [of "SolarSystem_init 10" "clock_at 0 0" 1]
  by (simp add: clock_at_def)

section \<open>Storage\<close>






















section \<open>Usage summary\<close>





section \<open>Scheduling\<close>

lemma scheduled_at_append:
  "scheduled_at (schedule_append sched hour name) hour = scheduled_at sched hour @ [name]"
  by (simp add: scheduled_at_def schedule_append_def Let_def split: option.splits)

lemma schedule_append_other:
  "h \<noteq> hour \<Longrightarrow> schedule_append sched hour name h = sched h"
  by (simp add: schedule_append_def Let_def)

lemma schedule_appliances_result:
  assumes "off_peak_rate periods = Inr off"
  shows "\<exists>sched'. schedule_appliances hour g rate periods apps sched = Inr sched'
           \<and> scheduled_at sched' hour
               = scheduled_at sched hour @ map fst (filter (eligible g rate off) apps)
           \<and> (\<forall>h. h \<noteq> hour \<longrightarrow> sched' h = sched h)"
proof (induction apps arbitrary: sched)
  case Nil
  show ?case by simp
next
  case (Cons entry rest)
  obtain name details where entry: "entry = (name, details)" by (cases entry)
  show ?case
  proof (cases "eligible g rate off entry")
    case True
    from Cons.IH [of "schedule_append sched hour name"]
    obtain sched' where
      run: "schedule_appliances hour g rate periods rest (schedule_append sched hour name) = Inr sched'"
      and at: "scheduled_at sched' hour
                 = scheduled_at (schedule_append sched hour name) hour
                   @ map fst (filter (eligible g rate off) rest)"
      and other: "\<forall>h. h \<noteq> hour \<longrightarrow> sched' h = schedule_append sched hour name h"
      by blast
    have "schedule_appliances hour g rate periods (entry # rest) sched = Inr sched'"
      using True run assms by (auto simp: entry eligible_def)
    moreover have "scheduled_at sched' hour
        = scheduled_at sched hour @ map fst (filter (eligible g rate off) (entry # rest))"
      using True at by (simp add: entry scheduled_at_append)
    moreover have "\<forall>h. h \<noteq> hour \<longrightarrow> sched' h = sched h"
      using other by (simp add: schedule_append_other)
    ultimately show ?thesis by blast
  next
    case False
    from Cons.IH [of sched]
    obtain sched' where
      run: "schedule_appliances hour g rate periods rest sched = Inr sched'"
      and at: "scheduled_at sched' hour
                 = scheduled_at sched hour @ map fst (filter (eligible g rate off) rest)"
      and other: "\<forall>h. h \<noteq> hour \<longrightarrow> sched' h = sched h"
      by blast
    have "schedule_appliances hour g rate periods (entry # rest) sched = Inr sched'"
      using False run assms by (auto simp: entry eligible_def)
    moreover have "scheduled_at sched' hour
        = scheduled_at sched hour @ map fst (filter (eligible g rate off) (entry # rest))"
      using False at by simp
    ultimately show ?thesis using other by blast
  qed
qed

lemma get_current_rate_total:
  assumes "off_peak_rate periods = Inr off"
  shows "\<exists>rate. get_current_rate periods now = Inr rate"
  using assms by (simp add: get_current_rate_def split: option.splits)

lemma update_generation_capacity:
  "capacity_kw (snd (update_generation sys t u)) = capacity_kw sys"
  by (simp add: update_generation_def Let_def)

lemma update_generation_cong:
  "capacity_kw sys = capacity_kw sys' \<Longrightarrow>
     fst (update_generation sys t u) = fst (update_generation sys' t u)"
  by (simp add: update_generation_def Let_def)

lemma schedule_hours_result:
  assumes off: "off_peak_rate periods = Inr off"
  shows "list_all (\<lambda>h. h \<le> 23) hours \<Longrightarrow> distinct hours \<Longrightarrow>
         \<exists>sys' sched'. schedule_hours env periods apps hours (sys, sched) = Inr (sys', sched')
           \<and> capacity_kw sys' = capacity_kw sys
           \<and> (\<forall>h. h \<notin> set hours \<longrightarrow> sched' h = sched h)
           \<and> (\<forall>h rate. h \<in> set hours \<longrightarrow> get_current_rate periods (now_at env h) = Inr rate \<longrightarrow>
                scheduled_at sched' h = scheduled_at sched h @
                  map fst (filter (eligible
                     (fst (update_generation sys ((now_start env)\<lparr>dt_hour := h\<rparr>) (uniform_at env h)))
                     rate off) apps))"
proof (induction hours arbitrary: sys sched)
  case Nil
  show ?case by simp
next
  case (Cons hour hours)
  let ?slot = "(now_start env)\<lparr>dt_hour := hour\<rparr>"
  let ?g = "fst (update_generation sys ?slot (uniform_at env hour))"
  let ?sys1 = "snd (update_generation sys ?slot (uniform_at env hour))"
  from Cons.prems have h23: "hour \<le> 23" and rest23: "list_all (\<lambda>h. h \<le> 23) hours"
    and notin: "hour \<notin> set hours" and dist: "distinct hours" by simp_all
  obtain rate where rate: "get_current_rate periods (now_at env hour) = Inr rate"
    using get_current_rate_total [OF off] by blast
  obtain sched1 where
    inner: "schedule_appliances hour ?g rate periods apps sched = Inr sched1"
    and at1: "scheduled_at sched1 hour
               = scheduled_at sched hour @ map fst (filter (eligible ?g rate off) apps)"
    and other1: "\<forall>h. h \<noteq> hour \<longrightarrow> sched1 h = sched h"
    using schedule_appliances_result [OF off] by blast
  have cap1: "capacity_kw ?sys1 = capacity_kw sys" by (rule update_generation_capacity)
  from Cons.IH [OF rest23 dist, of ?sys1 sched1]
  obtain sys' sched' where
    run: "schedule_hours env periods apps hours (?sys1, sched1) = Inr (sys', sched')"
    and cap: "capacity_kw sys' = capacity_kw ?sys1"
    and out: "\<forall>h. h \<notin> set hours \<longrightarrow> sched' h = sched1 h"
    and inside: "\<forall>h rate. h \<in> set hours \<longrightarrow> get_current_rate periods (now_at env h) = Inr rate \<longrightarrow>
                scheduled_at sched' h = scheduled_at sched1 h @
                  map fst (filter (eligible
                     (fst (update_generation ?sys1 ((now_start env)\<lparr>dt_hour := h\<rparr>) (uniform_at env h)))
                     rate off) apps)"
    by blast
  have step: "schedule_hours env periods apps (hour # hours) (sys, sched) = Inr (sys', sched')"
    using h23 rate inner run by (simp add: replace_hour_def case_prod_beta)
  have c1: "capacity_kw sys' = capacity_kw sys" using cap cap1 by simp
  have c2: "\<forall>h. h \<notin> set (hour # hours) \<longrightarrow> sched' h = sched h"
    using out other1 by simp
  have c3: "scheduled_at sched' h = scheduled_at sched h @
              map fst (filter (eligible
                 (fst (update_generation sys ((now_start env)\<lparr>dt_hour := h\<rparr>) (uniform_at env h)))
                 r off) apps)"
    if mem: "h \<in> set (hour # hours)" and r: "get_current_rate periods (now_at env h) = Inr r"
    for h r
  proof (cases "h = hour")
    case True
    then have "sched' h = sched1 h" using out notin by simp
    then have "scheduled_at sched' h = scheduled_at sched1 h" by (simp add: scheduled_at_def)
    moreover have "r = rate" using r rate True by simp
    ultimately show ?thesis using at1 True by simp
  next
    case False
    then have hin: "h \<in> set hours" using mem by simp
    have "scheduled_at sched1 h = scheduled_at sched h"
      using other1 False by (simp add: scheduled_at_def)
    moreover have "fst (update_generation ?sys1 ((now_start env)\<lparr>dt_hour := h\<rparr>) (uniform_at env h))
        = fst (update_generation sys ((now_start env)\<lparr>dt_hour := h\<rparr>) (uniform_at env h))"
      by (rule update_generation_cong [OF cap1])
    ultimately show ?thesis using inside hin r by simp
  qed
  show ?case using step c1 c2 c3 by blast
qed

lemma off_peak_rate_default: "off_peak_rate TariffSchedule_init = Inr 0.15"
  by (simp add: off_peak_rate_def TariffSchedule_init_def)

lemma dict_set_keys: "set (map fst (dict_set al k v)) = insert k (set (map fst al))"
  by (induction al k v rule: dict_set.induct) auto

lemma dict_set_distinct: "distinct (map fst al) \<Longrightarrow> distinct (map fst (dict_set al k v))"
proof (induction al k v rule: dict_set.induct)
  case (1 k v)
  show ?case by simp
next
  case (2 k' v' rest k v)
  then show ?case using dict_set_keys [of rest k v] by auto
qed

lemma add_appliance_distinct:
  "distinct (map fst (appliance_schedule self)) \<Longrightarrow>
     distinct (map fst (appliance_schedule (add_appliance self name usage flexible)))"
  by (simp add: add_appliance_def dict_set_distinct)

lemma schedule_hours_append:
  "schedule_hours env periods apps (xs @ ys) st =
     (case schedule_hours env periods apps xs st of
        Inl e \<Rightarrow> Inl e
      | Inr st' \<Rightarrow> schedule_hours env periods apps ys st')"
proof (induction xs arbitrary: st)
  case Nil
  show ?case by simp
next
  case (Cons x xs)
  obtain sys sched where st: "st = (sys, sched)" by (cases st)
  show ?case unfolding st using Cons.IH
    by (simp split: sum.splits prod.splits)
qed

lemma upt_all_le_23: "n \<le> 24 \<Longrightarrow> list_all (\<lambda>h. h \<le> 23) [0 ..< n]"
  by (simp add: list_all_iff)

lemma optimize_schedule_entries:
  assumes off: "off_peak_rate (tariff_schedule self) = Inr off"
    and w: "w \<le> 24"
  shows "\<exists>sched self'. optimize_schedule env self w = Inr (sched, self')
           \<and> (\<forall>h rate. h < nat w \<longrightarrow>
                 get_current_rate (tariff_schedule self) (now_at env h) = Inr rate \<longrightarrow>
                 scheduled_at sched h =
                   map fst (filter (eligible
                     (fst (update_generation (solar_system self)
                             ((now_start env)\<lparr>dt_hour := h\<rparr>) (uniform_at env h)))
                     rate off) (appliance_schedule self)))
           \<and> (\<forall>h. \<not> h < nat w \<longrightarrow> sched h = None)"
proof -
  from w have all: "list_all (\<lambda>h. h \<le> 23) [0 ..< nat w]" by (intro upt_all_le_23) simp
  from schedule_hours_result [OF off all distinct_upt,
      of env "appliance_schedule self" "solar_system self" Map.empty]
  obtain sys' sched' where
    run: "schedule_hours env (tariff_schedule self) (appliance_schedule self) [0 ..< nat w]
            (solar_system self, Map.empty) = Inr (sys', sched')"
    and out: "\<forall>h. h \<notin> set [0 ..< nat w] \<longrightarrow> sched' h = Map.empty h"
    and inside: "\<forall>h rate. h \<in> set [0 ..< nat w] \<longrightarrow>
         get_current_rate (tariff_schedule self) (now_at env h) = Inr rate \<longrightarrow>
         scheduled_at sched' h = scheduled_at Map.empty h @
           map fst (filter (eligible
             (fst (update_generation (solar_system self)
                     ((now_start env)\<lparr>dt_hour := h\<rparr>) (uniform_at env h)))
             rate off) (appliance_schedule self))"
    by blast
  have "optimize_schedule env self w = Inr (sched', self\<lparr>solar_system := sys'\<rparr>)"
    using run by (simp add: optimize_schedule_def)
  moreover have "\<forall>h. \<not> h < nat w \<longrightarrow> sched' h = None" using out by simp
  moreover have "\<forall>h rate. h < nat w \<longrightarrow>
         get_current_rate (tariff_schedule self) (now_at env h) = Inr rate \<longrightarrow>
         scheduled_at sched' h =
           map fst (filter (eligible
             (fst (update_generation (solar_system self)
                     ((now_start env)\<lparr>dt_hour := h\<rparr>) (uniform_at env h)))
             rate off) (appliance_schedule self))"
    using inside by (simp add: scheduled_at_def)
  ultimately show ?thesis by blast
qed

lemma optimize_schedule_long_window:
  assumes off: "off_peak_rate (tariff_schedule self) = Inr off" and big: "24 < w"
  shows "optimize_schedule env self w = Inl ValueError"
proof -
  define k where "k = nat w - 24"
  have k: "nat w = 24 + k" and kpos: "0 < k"
    using big by (simp_all add: k_def)
  have "[0 ..< 24 + k] = [0 ..< 24] @ [24 ..< 24 + k]"
    by (rule upt_add_eq_append) simp
  moreover have "[24 ..< 24 + k] = 24 # [Suc 24 ..< 24 + k]"
    by (rule upt_conv_Cons) (use kpos in simp)
  ultimately have hours_eq: "[0 ..< nat w] = [0 ..< 24] @ 24 # [Suc 24 ..< 24 + k]"
    by (simp only: k)
  have all24: "list_all (\<lambda>h. h \<le> 23) [0 ..< 24]" by (rule upt_all_le_23) simp
  from schedule_hours_result [OF off all24 distinct_upt,
      where env = env and apps = "appliance_schedule self" and sys = "solar_system self"
        and sched = Map.empty]
  obtain sys' sched' where run24:
    "schedule_hours env (tariff_schedule self) (appliance_schedule self) [0 ..< 24]
       (solar_system self, Map.empty) = Inr (sys', sched')"
    by blast
  have fail: "schedule_hours env (tariff_schedule self) (appliance_schedule self)
          [0 ..< nat w] (solar_system self, Map.empty) = Inl ValueError"
    unfolding hours_eq schedule_hours_append run24 by (simp add: replace_hour_def)
  show ?thesis
    unfolding optimize_schedule_def fail by simp
qed

lemma eligible_member:
  assumes "distinct (map fst apps)" and "map_of apps name = Some details"
  shows "name \<in> set (map fst (filter (eligible g rate off) apps))
           \<longleftrightarrow> flexible_timing details \<and> (g > power_usage details \<or> rate = off)"
proof -
  have mem: "(name, details) \<in> set apps" using assms(2) by (rule map_of_SomeD)
  have uniq: "d = details" if "(name, d) \<in> set apps" for d
    using map_of_is_SomeI [OF assms(1) that] assms(2) by simp
  have "name \<in> set (map fst (filter (eligible g rate off) apps))
          \<longleftrightarrow> (\<exists>d. (name, d) \<in> set apps \<and> eligible g rate off (name, d))"
    by force
  also have "\<dots> \<longleftrightarrow> eligible g rate off (name, details)"
    using mem uniq by blast
  finally show ?thesis by (simp add: eligible_def)
qed

lemma eligible_flexible:
  "name \<in> set (map fst (filter (eligible g rate off) apps)) \<Longrightarrow>
     \<exists>details. (name, details) \<in> set apps \<and> flexible_timing details"
  by (auto simp: eligible_def)

text \<open>
  C1: for an optimizer with the default tariff periods and a run of \<open>optimize_schedule\<close>
  that returns a schedule, take an hour \<open>h\<close> of the window, the rate that \<open>get_current_rate\<close> returned in the
  iteration for \<open>h\<close>, and the generation that \<open>update_generation\<close> returned for the time
  slot of \<open>h\<close>. A registered appliance is in the list of hour \<open>h\<close> if and only if it is
  flexible and the generation is strictly above its power draw or the rate equals the
  off-peak rate 0.15. Every name in the list of any hour is a registered appliance that is
  flexible, so an appliance that is not flexible is in no list.
\<close>

theorem schedule_membership:
  assumes tariff: "tariff_schedule self = TariffSchedule_init"
    and keys: "distinct (map fst (appliance_schedule self))"
    and run: "optimize_schedule env self w = Inr (sched, self')"
    and h: "h < nat w"
    and app: "map_of (appliance_schedule self) name = Some details"
    and rate: "get_current_rate (tariff_schedule self) (now_at env h) = Inr rate"
    and gen: "replace_hour (now_start env) h = Inr time_slot"
             "solar_generation = fst (update_generation (solar_system self) time_slot (uniform_at env h))"
  shows "(name \<in> set (scheduled_at sched h)
            \<longleftrightarrow> flexible_timing details \<and> (solar_generation > power_usage details \<or> rate = 0.15))
         \<and> (\<forall>hour. \<forall>n \<in> set (scheduled_at sched hour).
               \<exists>d. map_of (appliance_schedule self) n = Some d \<and> flexible_timing d)"
proof -
  have off: "off_peak_rate (tariff_schedule self) = Inr 0.15"
    by (simp add: tariff off_peak_rate_default)
  have w: "w \<le> 24"
  proof (rule ccontr)
    assume "\<not> w \<le> 24"
    then have "optimize_schedule env self w = Inl ValueError"
      by (intro optimize_schedule_long_window [OF off]) simp
    with run show False by simp
  qed
  from optimize_schedule_entries [OF off w, of env] run
  have inside: "\<And>h rate. h < nat w \<Longrightarrow>
         get_current_rate (tariff_schedule self) (now_at env h) = Inr rate \<Longrightarrow>
         scheduled_at sched h =
           map fst (filter (eligible
             (fst (update_generation (solar_system self)
                     ((now_start env)\<lparr>dt_hour := h\<rparr>) (uniform_at env h)))
             rate 0.15) (appliance_schedule self))"
    and out: "\<And>h. \<not> h < nat w \<Longrightarrow> sched h = None"
    by auto
  have slot: "time_slot = (now_start env)\<lparr>dt_hour := h\<rparr>"
    using gen(1) by (simp add: replace_hour_def split: if_splits)
  have first: "name \<in> set (scheduled_at sched h)
            \<longleftrightarrow> flexible_timing details \<and> (solar_generation > power_usage details \<or> rate = 0.15)"
    using inside [OF h rate] eligible_member [OF keys app] by (simp add: gen(2) slot)
  have second: "\<exists>d. map_of (appliance_schedule self) n = Some d \<and> flexible_timing d"
    if n: "n \<in> set (scheduled_at sched hour)" for hour n
  proof (cases "hour < nat w")
    case True
    obtain r where r: "get_current_rate (tariff_schedule self) (now_at env hour) = Inr r"
      using get_current_rate_total [OF off] by blast
    from inside [OF True r] n eligible_flexible
    obtain d where "(n, d) \<in> set (appliance_schedule self)" and "flexible_timing d"
      by metis
    then show ?thesis using keys by auto
  next
    case False
    then show ?thesis using out n by (simp add: scheduled_at_def)
  qed
  show ?thesis using first second by blast
qed

theorem schedule_membership_witness:
  "tariff_schedule home_optimizer = TariffSchedule_init
   \<and> distinct (map fst (appliance_schedule home_optimizer))
   \<and> optimize_schedule (fixed_env (clock_at 21 0) 1) home_optimizer 1
       = Inr ([0 \<mapsto> [''Pool Pump'']],
              home_optimizer\<lparr>solar_system := (SolarSystem_init 10)\<lparr>current_generation := 0\<rparr>\<rparr>)
   \<and> get_current_rate (tariff_schedule home_optimizer) (clock_at 21 0) = Inr 0.15
   \<and> ''Pool Pump'' \<in> set (scheduled_at [0 \<mapsto> [''Pool Pump'']] 0)
   \<and> ''Refrigerator'' \<notin> set (scheduled_at [0 \<mapsto> [''Pool Pump'']] 0)"
proof -
  let ?env = "fixed_env (clock_at 21 0) 1"
  let ?pump = "\<lparr>power_usage = 1, flexible_timing = True, scheduled_runs = []\<rparr>"
  let ?fridge = "\<lparr>power_usage = 0.15, flexible_timing = False, scheduled_runs = []\<rparr>"
  have tariff: "tariff_schedule home_optimizer = TariffSchedule_init"
    by (simp add: home_optimizer_def add_appliance_def EnergyOptimizer_init_def)
  have apps: "appliance_schedule home_optimizer = [(''Pool Pump'', ?pump), (''Refrigerator'', ?fridge)]"
    by (simp add: home_optimizer_def add_appliance_def EnergyOptimizer_init_def)
  have keys: "distinct (map fst (appliance_schedule home_optimizer))"
    by (simp add: apps)
  have rate: "get_current_rate (tariff_schedule home_optimizer) (now_at ?env 0) = Inr 0.15"
    by (simp add: tariff fixed_env_def clock_at_def get_current_rate_def TariffSchedule_init_def
        dt_time_def mk_time_def time_lt_def time_le_def time_ge_def time_cmp_def cmp_nat_def)
  have slot: "replace_hour (now_start ?env) 0 = Inr (clock_at 0 0)"
    by (simp add: replace_hour_def fixed_env_def clock_at_def)
  have gen: "(0::real) = fst (update_generation (solar_system home_optimizer) (clock_at 0 0)
                (uniform_at ?env 0))"
    by (simp add: update_generation_def clock_at_def Let_def)
  have sys: "solar_system home_optimizer = SolarSystem_init 10"
    by (simp add: home_optimizer_def add_appliance_def EnergyOptimizer_init_def)
  have off: "off_peak_rate TariffSchedule_init = Inr 0.15"
    by (simp add: off_peak_rate_def TariffSchedule_init_def)
  have run: "optimize_schedule ?env home_optimizer 1
       = Inr ([0 \<mapsto> [''Pool Pump'']],
              home_optimizer\<lparr>solar_system := (SolarSystem_init 10)\<lparr>current_generation := 0\<rparr>\<rparr>)"
    unfolding optimize_schedule_def tariff apps sys
    by (simp add: fixed_env_def clock_at_def replace_hour_def get_current_rate_def
        off_peak_rate_def TariffSchedule_init_def dt_time_def mk_time_def time_lt_def
        time_le_def time_ge_def time_cmp_def cmp_nat_def update_generation_def
        SolarSystem_init_def Let_def schedule_append_def)
  have pump: "map_of (appliance_schedule home_optimizer) ''Pool Pump'' = Some ?pump"
    by (simp add: apps)
  have fridge: "map_of (appliance_schedule home_optimizer) ''Refrigerator'' = Some ?fridge"
    by (simp add: apps)
  have h: "0 < nat 1" by simp
  from schedule_membership [OF tariff keys run h pump rate slot gen]
    schedule_membership [OF tariff keys run h fridge rate slot gen]
  show ?thesis using tariff keys run rate [unfolded fixed_env_def] by simp
qed

text \<open>
  C9: with a tariff that has the key \<open>off_peak\<close>, as every \<open>TariffSchedule\<close> has,
  \<open>optimize_schedule\<close> returns a schedule for every window of at most 24 hours (an empty
  one for a window of 0 or less), and for every window above 24 it raises ValueError: the
  time slot for hour 24 is rejected, and no schedule is returned.
\<close>

theorem window_completion:
  assumes "off_peak_rate (tariff_schedule self) = Inr off"
  shows "(w \<le> 24 \<longrightarrow> (\<exists>sched self'. optimize_schedule env self w = Inr (sched, self')))
         \<and> (24 < w \<longrightarrow> optimize_schedule env self w = Inl ValueError)"
proof (intro conjI impI)
  assume "w \<le> 24"
  from optimize_schedule_entries [OF assms this, of env]
  show "\<exists>sched self'. optimize_schedule env self w = Inr (sched, self')" by blast
next
  assume "24 < w"
  then show "optimize_schedule env self w = Inl ValueError"
    by (rule optimize_schedule_long_window [OF assms])
qed

theorem window_completion_witness:
  "off_peak_rate (tariff_schedule home_optimizer) = Inr 0.15
   \<and> (\<exists>sched self'. optimize_schedule (fixed_env (clock_at 21 0) 1) home_optimizer 24
                        = Inr (sched, self'))
   \<and> optimize_schedule (fixed_env (clock_at 21 0) 1) home_optimizer 25 = Inl ValueError"
proof -
  have off: "off_peak_rate (tariff_schedule home_optimizer) = Inr 0.15"
    by (simp add: home_optimizer_def add_appliance_def EnergyOptimizer_init_def
        off_peak_rate_def TariffSchedule_init_def)
  from window_completion [OF off, of 24 "fixed_env (clock_at 21 0) 1"]
    window_completion [OF off, of 25 "fixed_env (clock_at 21 0) 1"]
  show ?thesis using off by simp
qed

text \<open>
  C3 fails on the code: \<open>optimize_schedule\<close> builds the time slot of the hour but calls
  \<open>get_current_rate()\<close>, which takes no instant and reads the wall clock. Called at 15:30
  with a window of 3 hours, it uses the peak rate 0.40 for the hours 0, 1 and 2, whose own
  period is off-peak with rate 0.15 (hour 2 shown): the flexible charger, which the
  off-peak rate would place in all three hours, is in none, and the schedule is empty.
\<close>

theorem rate_is_read_from_wall_clock:
  "replace_hour (now_start (fixed_env (clock_at 15 30) 1)) 2 = Inr (clock_at 2 30)
   \<and> get_current_rate TariffSchedule_init (clock_at 2 30) = Inr 0.15
   \<and> get_current_rate TariffSchedule_init (now_at (fixed_env (clock_at 15 30) 1) 2) = Inr 0.40
   \<and> optimize_schedule (fixed_env (clock_at 15 30) 1) ev_optimizer 3
       = Inr (Map.empty,
              ev_optimizer\<lparr>solar_system := (SolarSystem_init 5)\<lparr>current_generation := 0\<rparr>\<rparr>)"
  by (simp add: optimize_schedule_def ev_optimizer_def add_appliance_def EnergyOptimizer_init_def
      fixed_env_def clock_at_def replace_hour_def get_current_rate_def off_peak_rate_def
      TariffSchedule_init_def dt_time_def mk_time_def time_lt_def time_le_def time_ge_def
      time_cmp_def cmp_nat_def update_generation_def SolarSystem_init_def Let_def upt_rec)

text \<open>
  C8 fails on the code, by the same wall-clock read: two calls with the same window of 3
  hours, the same registry and the same random draws return different schedules when one
  is made at 21:00 and the other at 15:30. The first puts the charger in every hour, the
  second in none.
\<close>

theorem schedule_differs_with_wall_clock:
  "uniform_at (fixed_env (clock_at 21 0) 1) = uniform_at (fixed_env (clock_at 15 30) 1)
   \<and> optimize_schedule (fixed_env (clock_at 21 0) 1) ev_optimizer 3
       = Inr ([0 \<mapsto> [''EV Charger''], 1 \<mapsto> [''EV Charger''], 2 \<mapsto> [''EV Charger'']],
              ev_optimizer\<lparr>solar_system := (SolarSystem_init 5)\<lparr>current_generation := 0\<rparr>\<rparr>)
   \<and> optimize_schedule (fixed_env (clock_at 15 30) 1) ev_optimizer 3
       = Inr (Map.empty,
              ev_optimizer\<lparr>solar_system := (SolarSystem_init 5)\<lparr>current_generation := 0\<rparr>\<rparr>)
   \<and> [0 \<mapsto> [''EV Charger''], 1 \<mapsto> [''EV Charger''], 2 \<mapsto> [''EV Charger'']]
       \<noteq> (Map.empty :: schedule)"
  by (simp add: optimize_schedule_def ev_optimizer_def add_appliance_def EnergyOptimizer_init_def
      fixed_env_def clock_at_def replace_hour_def get_current_rate_def off_peak_rate_def
      TariffSchedule_init_def dt_time_def mk_time_def time_lt_def time_le_def time_ge_def
      time_cmp_def cmp_nat_def update_generation_def SolarSystem_init_def Let_def upt_rec
      schedule_append_def numeral_2_eq_2)



end
